theory Spec2Isabelle
  imports Complex_Main "HOL-Library.Word" "HOL-Library.Code_Target_Nat" "HOL-Library.Sublist"
begin

unbundle bit_operations_syntax

section \<open>Values of the program\<close>

text \<open>
  The client in \<^verbatim>\<open>src/gemini.js\<close> has two entry points, \<^verbatim>\<open>generateSpeech\<close> and
  \<^verbatim>\<open>generateSpeechStream\<close>. Both are asynchronous JavaScript; every \<^verbatim>\<open>await\<close> is
  a point where the function is suspended until the awaited operation settles. The
  embedding is sequential: a function returns the list of effects it performed, in
  order, together with the value it resolves with or the error it rejects with.

  Bytes (\<^verbatim>\<open>Uint8Array\<close>, \<^verbatim>\<open>Buffer\<close>) are lists of 8-bit words. A JavaScript string
  is modelled by the list of its code points; every string operation the source uses
  (\<^verbatim>\<open>split('\n')\<close>, \<^verbatim>\<open>startsWith('data: ')\<close>, \<^verbatim>\<open>slice(6)\<close>, \<^verbatim>\<open>trim()\<close>,
  comparison with \<^verbatim>\<open>'[DONE]'\<close>) looks only at characters of the Basic Multilingual
  Plane, where code points and UTF-16 code units coincide.
\<close>

type_synonym byte = "8 word"
type_synonym bytes = "byte list"
type_synonym utext = "nat list"

definition of_ascii :: "string \<Rightarrow> utext" where
  "of_ascii s = map of_char s"

text \<open>A JSON document as \<^verbatim>\<open>JSON.parse\<close> and \<^verbatim>\<open>response.json()\<close> return it. An
  object keeps its members in source order; the last binding of a key wins.\<close>

datatype json =
    JNull
  | JBool bool
  | JNum rat
  | JStr utext
  | JArr "json list"
  | JObj "(utext \<times> json) list"

text \<open>Errors. The three errors the source constructs with \<^verbatim>\<open>new Error(...)\<close> have
  the name \<^verbatim>\<open>Error\<close>; an exception raised by the platform (\<^verbatim>\<open>fetch\<close>, the response,
  the body reader, \<^verbatim>\<open>Buffer.from\<close>) carries its own name. \<^verbatim>\<open>ThrownUndefined\<close> is
  \<^verbatim>\<open>throw lastError\<close> with \<^verbatim>\<open>lastError\<close> never assigned.\<close>

datatype error =
    ConfigurationError
  | ApiError nat utext
  | NoAudioError
  | Thrown string
  | ThrownUndefined

fun error_name :: "error \<Rightarrow> string" where
  "error_name (Thrown n) = n"
| "error_name _ = ''Error''"

definition AbortError :: error where
  "AbortError = Thrown ''AbortError''"

definition TypeError :: error where
  "TypeError = Thrown ''TypeError''"

datatype level = Debug | Info | Warn | Error

text \<open>The call sites of the logger, with the numbers their messages interpolate.\<close>

datatype log_site =
    SendingRequest nat nat
  | ApiErrorLogged nat
  | ResponseReceived
  | NoAudioData
  | Generated nat
  | AttemptFailed nat
  | Retrying nat
  | SendingStreamingRequest nat nat
  | ApiStreamingError nat
  | StreamingAttemptFailed nat
  | RetryingStream nat
  | FailedToParse
  | Streamed nat

text \<open>The observable effects, in the order the program performs them.
  \<^verbatim>\<open>Fetch k\<close> is the call of \<^verbatim>\<open>fetch\<close> in attempt \<open>k\<close>, \<^verbatim>\<open>Sleep ms\<close> the call
  \<^verbatim>\<open>sleep(ms)\<close>, \<^verbatim>\<open>Chunk c\<close> the call \<^verbatim>\<open>onChunk(c)\<close> and \<^verbatim>\<open>Settled ok\<close> the moment
  the awaited promise of that call settles (fulfilled or rejected). \<^verbatim>\<open>Abort\<close> marks
  the moment the caller aborts the signal; it is written after the effect during whose
  suspension it happens.\<close>

datatype event =
    Log level log_site
  | Fetch nat
  | Sleep nat
  | Abort
  | GetReader
  | Read
  | Chunk bytes
  | Settled bool
  | ReleaseLock

text \<open>The body of a streaming response as the reader delivers it: the values of the
  successive \<^verbatim>\<open>reader.read()\<close> calls that resolve with \<^verbatim>\<open>done = false\<close>, and then
  either \<^verbatim>\<open>done = true\<close> (\<open>None\<close>) or a rejected read.\<close>

record stream_body =
  pushes :: "bytes list"
  ending :: "error option"

record response =
  status :: nat
  text_result :: "error + utext"
  json_result :: "error + json"
  body :: "stream_body option"

definition ok :: "response \<Rightarrow> bool" where
  "ok r = (200 \<le> status r \<and> status r \<le> 299)"

datatype fetch_result = Rejected error | Responded response

text \<open>What the program does not define itself is a parameter. The platform gives
  \<^verbatim>\<open>JSON.parse\<close> (\<open>None\<close> when it throws) and \<^verbatim>\<open>Buffer.from(v, 'base64')\<close> (an error
  when it throws). The environment of one call gives the outcome of the \<open>k\<close>-th
  \<^verbatim>\<open>fetch\<close>, the behaviour of the caller's \<^verbatim>\<open>onChunk\<close> at its \<open>n\<close>-th call (counted
  from 0; \<open>True\<close> when the promise is fulfilled), and the suspensions during which
  the caller aborts the signal: an attempt (seen by \<^verbatim>\<open>signal.aborted\<close> in its
  \<^verbatim>\<open>catch\<close>), a backoff sleep, a delivery to the sink.\<close>

record platform =
  json_parse :: "utext \<Rightarrow> json option"
  buffer_from :: "json \<Rightarrow> error + bytes"

record env =
  fetch :: "nat \<Rightarrow> fetch_result"
  onChunk :: "nat \<Rightarrow> bytes \<Rightarrow> bool"
  abort_in_attempt :: "nat \<Rightarrow> bool"
  abort_in_sleep :: "nat \<Rightarrow> bool"
  abort_in_sink :: "nat \<Rightarrow> bool"

section \<open>The audio field\<close>

text \<open>\<^verbatim>\<open>data?.candidates?.[0]?.content?.parts?.[0]?.inlineData?.data\<close>: \<open>None\<close> is
  \<^verbatim>\<open>undefined\<close>. Optional chaining stops at \<^verbatim>\<open>null\<close> and \<^verbatim>\<open>undefined\<close>; reading a
  property a value does not have gives \<^verbatim>\<open>undefined\<close>. None of the five names is a
  property of a string, a number, a boolean or an array.\<close>

fun get_prop :: "utext \<Rightarrow> json \<Rightarrow> json option" where
  "get_prop k (JObj kvs) = map_of (rev kvs) k"
| "get_prop k _ = None"

definition high_surrogate :: "nat \<Rightarrow> nat" where
  "high_surrogate c = (if c > 0xFFFF then 0xD800 + (c - 0x10000) div 0x400 else c)"

fun get_index0 :: "json \<Rightarrow> json option" where
  "get_index0 (JArr (x # xs)) = Some x"
| "get_index0 (JStr (c # cs)) = Some (JStr [high_surrogate c])"
| "get_index0 (JObj kvs) = map_of (rev kvs) (of_ascii ''0'')"
| "get_index0 _ = None"

definition audio_path :: "json \<Rightarrow> json option" where
  "audio_path data =
     Option.bind (Option.bind (Option.bind (Option.bind (Option.bind (Option.bind
       (get_prop (of_ascii ''candidates'') data)
       get_index0)
       (get_prop (of_ascii ''content'')))
       (get_prop (of_ascii ''parts'')))
       get_index0)
       (get_prop (of_ascii ''inlineData'')))
       (get_prop (of_ascii ''data''))"

text \<open>JavaScript truthiness of a JSON value: \<^verbatim>\<open>null\<close>, \<^verbatim>\<open>false\<close>, \<^verbatim>\<open>0\<close> and
  \<^verbatim>\<open>''\<close> are falsy.\<close>

fun truthy :: "json \<Rightarrow> bool" where
  "truthy JNull = False"
| "truthy (JBool b) = b"
| "truthy (JNum r) = (r \<noteq> 0)"
| "truthy (JStr s) = (s \<noteq> [])"
| "truthy (JArr xs) = True"
| "truthy (JObj kvs) = True"

text \<open>\<^verbatim>\<open>!apiKey\<close> for a key that is absent or a string.\<close>

fun missing :: "utext option \<Rightarrow> bool" where
  "missing None = True"
| "missing (Some k) = (k = [])"

section \<open>generateSpeech\<close>

text \<open>The arguments \<^verbatim>\<open>text\<close> and \<^verbatim>\<open>voiceName\<close> are strings. They enter the request
  body and the log messages only; the request is the same in every attempt, and the
  embedding leaves both out. \<^verbatim>\<open>retries\<close> is a natural number (the source's default is
  3), \<^verbatim>\<open>apiKey\<close> is absent or a string.\<close>

text \<open>The \<^verbatim>\<open>try\<close> block of one attempt, from the result of its \<^verbatim>\<open>fetch\<close> on: the
  effects after the call of \<^verbatim>\<open>fetch\<close>, and the buffer returned or the error thrown.\<close>

definition attempt_body :: "platform \<Rightarrow> fetch_result \<Rightarrow> event list \<times> (error + bytes)" where
  "attempt_body pf fr =
     (case fr of
        Rejected e \<Rightarrow> ([], Inl e)
      | Responded r \<Rightarrow>
          if \<not> ok r then
            (case text_result r of
               Inl e \<Rightarrow> ([], Inl e)
             | Inr errorText \<Rightarrow>
                 if status r \<ge> 500 then ([], Inl (ApiError (status r) errorText))
                 else ([Log Error (ApiErrorLogged (status r))],
                       Inl (ApiError (status r) errorText)))
          else
            (case json_result r of
               Inl e \<Rightarrow> ([], Inl e)
             | Inr data \<Rightarrow>
                 (case audio_path data of
                    None \<Rightarrow> ([Log Debug ResponseReceived, Log Error NoAudioData], Inl NoAudioError)
                  | Some audioData \<Rightarrow>
                      if \<not> truthy audioData then
                        ([Log Debug ResponseReceived, Log Error NoAudioData], Inl NoAudioError)
                      else
                        (case buffer_from pf audioData of
                           Inl e \<Rightarrow> ([Log Debug ResponseReceived], Inl e)
                         | Inr pcmBuffer \<Rightarrow>
                             ([Log Debug ResponseReceived, Log Info (Generated (length pcmBuffer))],
                              Inr pcmBuffer)))))"

text \<open>The \<^verbatim>\<open>for\<close> loop. The \<^verbatim>\<open>catch\<close> clause stores the error, logs it, sleeps
  \<^verbatim>\<open>attempt * 1000\<close> when \<^verbatim>\<open>attempt < retries\<close>, and falls through to the next
  iteration. After the loop comes \<^verbatim>\<open>throw lastError\<close>.\<close>

function attempts :: "platform \<Rightarrow> env \<Rightarrow> nat \<Rightarrow> nat \<Rightarrow> error option \<Rightarrow> event list \<times> (error + bytes)" where
  "attempts pf ev retries attempt lastError =
     (if attempt \<le> retries then
        (case attempt_body pf (fetch ev attempt) of
           (evs, Inr pcmBuffer) \<Rightarrow>
             (Log Debug (SendingRequest attempt retries) # Fetch attempt # evs, Inr pcmBuffer)
         | (evs, Inl e) \<Rightarrow>
             (let (rest, res) = attempts pf ev retries (Suc attempt) (Some e) in
                (Log Debug (SendingRequest attempt retries) # Fetch attempt # evs
                   @ [Log Warn (AttemptFailed attempt)]
                   @ (if attempt < retries
                      then [Log Info (Retrying (attempt * 1000)), Sleep (attempt * 1000)]
                      else [])
                   @ rest, res)))
      else
        ([], Inl (case lastError of None \<Rightarrow> ThrownUndefined | Some e \<Rightarrow> e)))"
  by pat_completeness auto
termination
  by (relation "measure (\<lambda>(pf, ev, retries, attempt, lastError). Suc retries - attempt)") auto

declare attempts.simps [simp del]

definition generateSpeech :: "platform \<Rightarrow> env \<Rightarrow> utext option \<Rightarrow> nat \<Rightarrow> event list \<times> (error + bytes)" where
  "generateSpeech pf ev apiKey retries =
     (if missing apiKey then ([], Inl ConfigurationError)
      else attempts pf ev retries 1 None)"

text \<open>Projections of a trace.\<close>

definition fetches :: "event list \<Rightarrow> nat list" where
  "fetches evs = [k. Fetch k \<leftarrow> evs]"

definition sleeps :: "event list \<Rightarrow> nat list" where
  "sleeps evs = [ms. Sleep ms \<leftarrow> evs]"

definition chunks :: "event list \<Rightarrow> bytes list" where
  "chunks evs = [c. Chunk c \<leftarrow> evs]"

section \<open>The text decoder\<close>

text \<open>\<^verbatim>\<open>new TextDecoder()\<close> is the UTF-8 decoder of the Encoding standard in
  replacement mode, with the byte order mark stripped. Its state are the five variables
  of the standard's decoder and the flag that an item has been output. A byte that
  cannot continue the pending sequence gives U+FFFD and is handled again as the first
  byte of a sequence.\<close>

record utf8_decoder =
  code_point :: nat
  bytes_seen :: nat
  bytes_needed :: nat
  lower_boundary :: byte
  upper_boundary :: byte
  bom_seen :: bool

definition utf8_init :: utf8_decoder where
  "utf8_init = \<lparr>code_point = 0, bytes_seen = 0, bytes_needed = 0,
     lower_boundary = 0x80, upper_boundary = 0xBF, bom_seen = False\<rparr>"

definition utf8_lead :: "utf8_decoder \<Rightarrow> byte \<Rightarrow> utf8_decoder \<times> nat list" where
  "utf8_lead d b =
     (if b \<le> 0x7F then (d, [unat b])
      else if 0xC2 \<le> b \<and> b \<le> 0xDF then
        (d\<lparr>bytes_needed := 1, code_point := unat (b AND 0x1F)\<rparr>, [])
      else if 0xE0 \<le> b \<and> b \<le> 0xEF then
        (d\<lparr>lower_boundary := (if b = 0xE0 then 0xA0 else lower_boundary d),
           upper_boundary := (if b = 0xED then 0x9F else upper_boundary d),
           bytes_needed := 2, code_point := unat (b AND 0xF)\<rparr>, [])
      else if 0xF0 \<le> b \<and> b \<le> 0xF4 then
        (d\<lparr>lower_boundary := (if b = 0xF0 then 0x90 else lower_boundary d),
           upper_boundary := (if b = 0xF4 then 0x8F else upper_boundary d),
           bytes_needed := 3, code_point := unat (b AND 0x7)\<rparr>, [])
      else (d, [0xFFFD]))"

definition utf8_handler :: "utf8_decoder \<Rightarrow> byte \<Rightarrow> utf8_decoder \<times> nat list" where
  "utf8_handler d b =
     (if bytes_needed d = 0 then utf8_lead d b
      else if \<not> (lower_boundary d \<le> b \<and> b \<le> upper_boundary d) then
        (let (d', out) = utf8_lead (d\<lparr>code_point := 0, bytes_needed := 0, bytes_seen := 0,
                                      lower_boundary := 0x80, upper_boundary := 0xBF\<rparr>) b
         in (d', 0xFFFD # out))
      else
        (let d' = d\<lparr>lower_boundary := 0x80, upper_boundary := 0xBF,
                     code_point := code_point d * 64 + unat (b AND 0x3F),
                     bytes_seen := bytes_seen d + 1\<rparr>
         in if bytes_seen d' \<noteq> bytes_needed d' then (d', [])
            else (d'\<lparr>code_point := 0, bytes_needed := 0, bytes_seen := 0\<rparr>, [code_point d'])))"

text \<open>Output of the decoder passes the byte order mark filter: the first item ever
  output is dropped when it is U+FEFF.\<close>

fun serialize :: "utf8_decoder \<Rightarrow> nat list \<Rightarrow> utf8_decoder \<times> utext" where
  "serialize d [] = (d, [])"
| "serialize d (c # cs) =
     (if bom_seen d then (d, c # cs)
      else (d\<lparr>bom_seen := True\<rparr>, if c = 0xFEFF then cs else c # cs))"

text \<open>\<^verbatim>\<open>decoder.decode(value, { stream: true })\<close>: the bytes of one push, the state kept
  for the next call.\<close>

fun utf8_decode :: "utf8_decoder \<Rightarrow> bytes \<Rightarrow> utf8_decoder \<times> utext" where
  "utf8_decode d [] = (d, [])"
| "utf8_decode d (b # bs) =
     (let (d1, out) = utf8_handler d b;
          (d2, t1) = serialize d1 out;
          (d3, t2) = utf8_decode d2 bs
      in (d3, t1 @ t2))"

text \<open>\<^verbatim>\<open>decoder.decode()\<close>: the end of the input. A pending incomplete sequence
  gives U+FFFD.\<close>

definition utf8_flush :: "utf8_decoder \<Rightarrow> utext" where
  "utf8_flush d = (if bytes_needed d \<noteq> 0 then [0xFFFD] else [])"

section \<open>String operations\<close>

text \<open>\<^verbatim>\<open>s.split('\n')\<close>: the fragments between the newlines. The result is never
  empty (the second branch of the \<open>case\<close> is never taken); its last fragment is what
  follows the last newline.\<close>

fun split_nl :: "utext \<Rightarrow> utext list" where
  "split_nl [] = [[]]"
| "split_nl (c # cs) =
     (if c = 10 then [] # split_nl cs
      else (case split_nl cs of
              l # ls \<Rightarrow> (c # l) # ls
            | [] \<Rightarrow> [[c]]))"

text \<open>The characters \<^verbatim>\<open>trim()\<close> removes: white space and line terminators of
  ECMAScript.\<close>

definition is_space :: "nat \<Rightarrow> bool" where
  "is_space c \<longleftrightarrow>
     c = 0x9 \<or> c = 0xA \<or> c = 0xB \<or> c = 0xC \<or> c = 0xD \<or> c = 0x20 \<or> c = 0xA0 \<or>
     c = 0x1680 \<or> (0x2000 \<le> c \<and> c \<le> 0x200A) \<or> c = 0x2028 \<or> c = 0x2029 \<or>
     c = 0x202F \<or> c = 0x205F \<or> c = 0x3000 \<or> c = 0xFEFF"

definition trim :: "utext \<Rightarrow> utext" where
  "trim s = rev (dropWhile is_space (rev (dropWhile is_space s)))"

definition startsWith :: "utext \<Rightarrow> utext \<Rightarrow> bool" where
  "startsWith line p = (take (length p) line = p)"

section \<open>generateSpeechStream\<close>

text \<open>What \<^verbatim>\<open>processLine\<close> reads and writes besides its argument: \<^verbatim>\<open>totalBytes\<close>;
  and, of the environment, how often \<^verbatim>\<open>onChunk\<close> has been called and whether the
  signal is aborted.\<close>

record cstate =
  totalBytes :: nat
  calls :: nat
  aborted :: bool

text \<open>\<^verbatim>\<open>processLine\<close>. Whatever is thrown between \<^verbatim>\<open>JSON.parse\<close> and the end of
  \<^verbatim>\<open>await onChunk(pcmChunk)\<close> lands in the one \<^verbatim>\<open>catch\<close>, which logs at debug level
  and returns.\<close>

definition processLine :: "platform \<Rightarrow> env \<Rightarrow> utext \<Rightarrow> cstate \<Rightarrow> event list \<times> cstate" where
  "processLine pf ev line st =
     (if startsWith line (of_ascii ''data: '') then
        (let jsonStr = trim (drop 6 line) in
           if jsonStr = of_ascii ''[DONE]'' then ([], st)
           else
             (case json_parse pf jsonStr of
                None \<Rightarrow> ([Log Debug FailedToParse], st)
              | Some data \<Rightarrow>
                  (case audio_path data of
                     None \<Rightarrow> ([], st)
                   | Some audioData \<Rightarrow>
                       if \<not> truthy audioData then ([], st)
                       else
                         (case buffer_from pf audioData of
                            Inl e \<Rightarrow> ([Log Debug FailedToParse], st)
                          | Inr pcmChunk \<Rightarrow>
                              (Chunk pcmChunk
                                 # (if abort_in_sink ev (calls st) \<and> \<not> aborted st then [Abort] else [])
                                 @ Settled (onChunk ev (calls st) pcmChunk)
                                 # (if onChunk ev (calls st) pcmChunk then []
                                    else [Log Debug FailedToParse]),
                               st\<lparr>totalBytes := totalBytes st + length pcmChunk,
                                  calls := Suc (calls st),
                                  aborted := (aborted st \<or> abort_in_sink ev (calls st))\<rparr>)))))
      else ([], st))"

text \<open>\<^verbatim>\<open>for (const line of lines) await processLine(line)\<close>.\<close>

fun processLines :: "platform \<Rightarrow> env \<Rightarrow> utext list \<Rightarrow> cstate \<Rightarrow> event list \<times> cstate" where
  "processLines pf ev [] st = ([], st)"
| "processLines pf ev (line # lines) st =
     (let (evs1, st1) = processLine pf ev line st;
          (evs2, st2) = processLines pf ev lines st1
      in (evs1 @ evs2, st2))"

text \<open>The \<^verbatim>\<open>while (true)\<close> loop over the reads, with the decoder and \<^verbatim>\<open>buffer\<close> as
  they stand before the read. The body stream of a fetch whose signal is aborted is
  errored, so a read then rejects with an \<^verbatim>\<open>AbortError\<close>. A rejected read leaves the
  loop with the error; \<^verbatim>\<open>done\<close> appends the decoder's flush to \<^verbatim>\<open>buffer\<close> and breaks,
  and the result is that \<^verbatim>\<open>buffer\<close>.\<close>

fun read_loop :: "platform \<Rightarrow> env \<Rightarrow> bytes list \<Rightarrow> error option \<Rightarrow> utf8_decoder \<Rightarrow> utext
    \<Rightarrow> cstate \<Rightarrow> event list \<times> (error + utext) \<times> cstate" where
  "read_loop pf ev [] e d buffer st =
     (if aborted st then ([Read], Inl AbortError, st)
      else (case e of
              Some err \<Rightarrow> ([Read], Inl err, st)
            | None \<Rightarrow> ([Read], Inr (buffer @ utf8_flush d), st)))"
| "read_loop pf ev (v # rest) e d buffer st =
     (if aborted st then ([Read], Inl AbortError, st)
      else
        (let (d', t) = utf8_decode d v;
             lines = split_nl (buffer @ t);
             (evs1, st1) = processLines pf ev (butlast lines) st;
             (evs2, res, st2) = read_loop pf ev rest e d' (last lines) st1
         in (Read # evs1 @ evs2, res, st2)))"

text \<open>From \<^verbatim>\<open>response.body.getReader()\<close> to the end of the \<^verbatim>\<open>finally\<close> clause;
  \<open>ab\<close> tells whether the signal is aborted at the start.\<close>

definition consume :: "platform \<Rightarrow> env \<Rightarrow> stream_body \<Rightarrow> bool
    \<Rightarrow> event list \<times> (error + unit) \<times> cstate" where
  "consume pf ev b ab =
     (let (evs1, res, st1) = read_loop pf ev (pushes b) (ending b) utf8_init []
            \<lparr>totalBytes = 0, calls = 0, aborted = ab\<rparr>
      in case res of
           Inl e \<Rightarrow> (GetReader # evs1 @ [ReleaseLock], Inl e, st1)
         | Inr buffer \<Rightarrow>
             (let (evs2, st2) =
                    (if trim buffer \<noteq> [] then processLine pf ev (trim buffer) st1
                     else ([], st1))
              in (GetReader # evs1 @ evs2 @ [ReleaseLock], Inr (), st2)))"

text \<open>The \<^verbatim>\<open>try\<close> block of one connection attempt, from the result of \<^verbatim>\<open>fetch\<close> on.\<close>

definition connect_body :: "fetch_result \<Rightarrow> event list \<times> (error + response)" where
  "connect_body fr =
     (case fr of
        Rejected e \<Rightarrow> ([], Inl e)
      | Responded r \<Rightarrow>
          if \<not> ok r then
            (case text_result r of
               Inl e \<Rightarrow> ([], Inl e)
             | Inr errorText \<Rightarrow>
                 if status r \<ge> 500 then ([], Inl (ApiError (status r) errorText))
                 else ([Log Error (ApiStreamingError (status r))],
                       Inl (ApiError (status r) errorText)))
          else ([], Inr r))"

text \<open>The retry loop for the initial connection. \<^verbatim>\<open>fetch\<close> is given the signal: with
  the signal already aborted it rejects with an \<^verbatim>\<open>AbortError\<close> at once. The result is
  the error thrown, or the value of \<^verbatim>\<open>response\<close> after the loop (\<open>None\<close> when the loop
  body never ran).\<close>

function connect :: "env \<Rightarrow> nat \<Rightarrow> nat \<Rightarrow> bool \<Rightarrow> event list \<times> (error + response option) \<times> bool" where
  "connect ev retries attempt ab =
     (if attempt \<le> retries then
        (let pre = Log Debug (SendingStreamingRequest attempt retries) # Fetch attempt
                     # (if abort_in_attempt ev attempt \<and> \<not> ab then [Abort] else []);
             ab1 = (ab \<or> abort_in_attempt ev attempt)
         in case connect_body (if ab then Rejected AbortError else fetch ev attempt) of
              (evs, Inr r) \<Rightarrow> (pre @ evs, Inr (Some r), ab1)
            | (evs, Inl e) \<Rightarrow>
                if error_name e = ''AbortError'' \<or> ab1 then (pre @ evs, Inl e, ab1)
                else if attempt < retries then
                  (let (rest, res, ab2) =
                         connect ev retries (Suc attempt) (abort_in_sleep ev attempt)
                   in (pre @ evs
                         @ [Log Warn (StreamingAttemptFailed attempt),
                            Log Info (RetryingStream (attempt * 1000)),
                            Sleep (attempt * 1000)]
                         @ (if abort_in_sleep ev attempt then [Abort] else [])
                         @ rest, res, ab2))
                else (pre @ evs @ [Log Warn (StreamingAttemptFailed attempt)], Inl e, ab1))
      else ([], Inr None, ab))"
  by pat_completeness auto
termination
  by (relation "measure (\<lambda>(ev, retries, attempt, ab). Suc retries - attempt)") auto

declare connect.simps [simp del]

text \<open>The whole function. With no response after the loop, or a response without a
  body, \<^verbatim>\<open>response.body.getReader()\<close> throws a \<^verbatim>\<open>TypeError\<close> before the \<^verbatim>\<open>try\<close>.\<close>

definition generateSpeechStream :: "platform \<Rightarrow> env \<Rightarrow> utext option \<Rightarrow> nat
    \<Rightarrow> event list \<times> (error + unit)" where
  "generateSpeechStream pf ev apiKey retries =
     (if missing apiKey then ([], Inl ConfigurationError)
      else
        (case connect ev retries 1 False of
           (evs, Inl e, ab) \<Rightarrow> (evs, Inl e)
         | (evs, Inr None, ab) \<Rightarrow> (evs, Inl TypeError)
         | (evs, Inr (Some r), ab) \<Rightarrow>
             (case body r of
                None \<Rightarrow> (evs, Inl TypeError)
              | Some b \<Rightarrow>
                  (let (evs2, res, st) = consume pf ev b ab
                   in (evs @ evs2
                         @ (case res of Inl e \<Rightarrow> [] | Inr u \<Rightarrow> [Log Info (Streamed (totalBytes st))]),
                       res)))))"

section \<open>A reference platform\<close>

text \<open>The theorems below hold for every platform. Where a statement is instantiated
  at a concrete input, \<^verbatim>\<open>JSON.parse\<close> and \<^verbatim>\<open>Buffer.from(s, 'base64')\<close> are the
  following functions: a parser of the JSON grammar (ECMA-404), and a base64 decoder
  that, like the one of Node.js, skips characters outside the alphabet, accepts the
  URL-safe alphabet, and stops at the first \<^verbatim>\<open>=\<close>. \<^verbatim>\<open>Buffer.from\<close> of a number or a
  boolean throws a \<^verbatim>\<open>TypeError\<close>; arrays and objects are not decoded by the reference
  platform and are given the same result.\<close>

definition sextet :: "nat \<Rightarrow> nat option" where
  "sextet c =
     (if 65 \<le> c \<and> c \<le> 90 then Some (c - 65)
      else if 97 \<le> c \<and> c \<le> 122 then Some (c - 71)
      else if 48 \<le> c \<and> c \<le> 57 then Some (c + 4)
      else if c = 43 \<or> c = 45 then Some 62
      else if c = 47 \<or> c = 95 then Some 63
      else None)"

fun sextets :: "utext \<Rightarrow> nat list" where
  "sextets [] = []"
| "sextets (c # cs) =
     (if c = 61 then []
      else (case sextet c of None \<Rightarrow> sextets cs | Some v \<Rightarrow> v # sextets cs))"

fun b64_groups :: "nat list \<Rightarrow> bytes" where
  "b64_groups (a # b # c # d # rest) =
     of_nat (a * 4 + b div 16) # of_nat ((b mod 16) * 16 + c div 4)
       # of_nat ((c mod 4) * 64 + d) # b64_groups rest"
| "b64_groups [a, b, c] = [of_nat (a * 4 + b div 16), of_nat ((b mod 16) * 16 + c div 4)]"
| "b64_groups [a, b] = [of_nat (a * 4 + b div 16)]"
| "b64_groups _ = []"

definition base64_decode :: "utext \<Rightarrow> bytes" where
  "base64_decode s = b64_groups (sextets s)"

fun ref_buffer_from :: "json \<Rightarrow> error + bytes" where
  "ref_buffer_from (JStr s) = Inr (base64_decode s)"
| "ref_buffer_from _ = Inl TypeError"

text \<open>The JSON lexer reads one character at a time. A word is a maximal run of
  letters, digits, signs and dots: a number or one of the three literals.\<close>

datatype token =
    LBrace | RBrace | LBrack | RBrack | Colon | Comma
  | TStr utext | TNum rat | TTrue | TFalse | TNull

datatype lmode =
    LDefault
  | LString utext
  | LEscape utext
  | LUnicode utext nat nat
  | LWord utext

definition is_digit :: "nat \<Rightarrow> bool" where
  "is_digit c \<longleftrightarrow> 48 \<le> c \<and> c \<le> 57"

definition is_word_char :: "nat \<Rightarrow> bool" where
  "is_word_char c \<longleftrightarrow>
     is_digit c \<or> (65 \<le> c \<and> c \<le> 90) \<or> (97 \<le> c \<and> c \<le> 122) \<or> c = 43 \<or> c = 45 \<or> c = 46"

definition hex_digit :: "nat \<Rightarrow> nat option" where
  "hex_digit c =
     (if is_digit c then Some (c - 48)
      else if 65 \<le> c \<and> c \<le> 70 then Some (c - 55)
      else if 97 \<le> c \<and> c \<le> 102 then Some (c - 87)
      else None)"

definition digits_value :: "utext \<Rightarrow> nat" where
  "digits_value ds = foldl (\<lambda>v c. v * 10 + (c - 48)) 0 ds"

text \<open>The exponent part of a number, after \<^verbatim>\<open>e\<close> or \<^verbatim>\<open>E\<close>: the factor it stands for.\<close>

definition exponent :: "utext \<Rightarrow> rat option" where
  "exponent s =
     (let (neg, ds) = (case s of
                         c # cs \<Rightarrow> if c = 45 then (True, cs) else if c = 43 then (False, cs)
                                   else (False, s)
                       | [] \<Rightarrow> (False, []))
      in if ds = [] \<or> \<not> list_all is_digit ds then None
         else if neg then Some (1 / of_nat (10 ^ digits_value ds))
         else Some (of_nat (10 ^ digits_value ds)))"

text \<open>The number grammar: an optional minus, an integer part without a leading zero,
  an optional fraction, an optional exponent.\<close>

definition number :: "utext \<Rightarrow> rat option" where
  "number s =
     (let (neg, s1) = (case s of c # cs \<Rightarrow> if c = 45 then (True, cs) else (False, s)
                               | [] \<Rightarrow> (False, []));
          ip = takeWhile is_digit s1;
          s2 = dropWhile is_digit s1;
          (fp, s3) = (case s2 of
                        c # cs \<Rightarrow> if c = 46 then (Some (takeWhile is_digit cs), dropWhile is_digit cs)
                                  else (None, s2)
                      | [] \<Rightarrow> (None, []));
          ex = (case s3 of
                  [] \<Rightarrow> Some 1
                | c # cs \<Rightarrow> if c = 101 \<or> c = 69 then exponent cs else None)
      in if ip = [] \<or> (length ip > 1 \<and> hd ip = 48) \<or> fp = Some [] then None
         else (case ex of
                 None \<Rightarrow> None
               | Some e \<Rightarrow>
                   (let m = of_nat (digits_value ip)
                          + (case fp of
                               None \<Rightarrow> 0
                             | Some fs \<Rightarrow> of_nat (digits_value fs) / of_nat (10 ^ length fs))
                    in Some ((if neg then - m else m) * e))))"

definition word_token :: "utext \<Rightarrow> token option" where
  "word_token w =
     (if w = of_ascii ''true'' then Some TTrue
      else if w = of_ascii ''false'' then Some TFalse
      else if w = of_ascii ''null'' then Some TNull
      else map_option TNum (number w))"

definition punct :: "nat \<Rightarrow> token option" where
  "punct c =
     (if c = 123 then Some LBrace else if c = 125 then Some RBrace
      else if c = 91 then Some LBrack else if c = 93 then Some RBrack
      else if c = 58 then Some Colon else if c = 44 then Some Comma
      else None)"

text \<open>A low surrogate written after a high surrogate (two \<^verbatim>\<open>\u\<close> escapes) is one
  code point.\<close>

definition add_unit :: "nat \<Rightarrow> utext \<Rightarrow> utext" where
  "add_unit u acc =
     (case acc of
        h # rest \<Rightarrow>
          if 0xD800 \<le> h \<and> h \<le> 0xDBFF \<and> 0xDC00 \<le> u \<and> u \<le> 0xDFFF
          then (0x10000 + (h - 0xD800) * 0x400 + (u - 0xDC00)) # rest
          else u # acc
      | [] \<Rightarrow> [u])"

definition lex_default :: "token list \<Rightarrow> nat \<Rightarrow> (lmode \<times> token list) option" where
  "lex_default toks c =
     (if c = 32 \<or> c = 9 \<or> c = 10 \<or> c = 13 then Some (LDefault, toks)
      else if c = 34 then Some (LString [], toks)
      else if is_word_char c then Some (LWord [c], toks)
      else map_option (\<lambda>t. (LDefault, t # toks)) (punct c))"

text \<open>One step of the lexer; the tokens and the pending text are kept in reverse.\<close>

fun lex_step :: "lmode \<times> token list \<Rightarrow> nat \<Rightarrow> (lmode \<times> token list) option" where
  "lex_step (LDefault, toks) c = lex_default toks c"
| "lex_step (LString acc, toks) c =
     (if c = 34 then Some (LDefault, TStr (rev acc) # toks)
      else if c = 92 then Some (LEscape acc, toks)
      else if c < 32 then None
      else Some (LString (c # acc), toks))"
| "lex_step (LEscape acc, toks) c =
     (if c = 34 \<or> c = 92 \<or> c = 47 then Some (LString (c # acc), toks)
      else if c = 98 then Some (LString (8 # acc), toks)
      else if c = 102 then Some (LString (12 # acc), toks)
      else if c = 110 then Some (LString (10 # acc), toks)
      else if c = 114 then Some (LString (13 # acc), toks)
      else if c = 116 then Some (LString (9 # acc), toks)
      else if c = 117 then Some (LUnicode acc 0 4, toks)
      else None)"
| "lex_step (LUnicode acc v k, toks) c =
     (case hex_digit c of
        None \<Rightarrow> None
      | Some h \<Rightarrow>
          if k \<le> 1 then Some (LString (add_unit (v * 16 + h) acc), toks)
          else Some (LUnicode acc (v * 16 + h) (k - 1), toks))"
| "lex_step (LWord acc, toks) c =
     (if is_word_char c then Some (LWord (c # acc), toks)
      else (case word_token (rev acc) of
              None \<Rightarrow> None
            | Some t \<Rightarrow> lex_default (t # toks) c))"

fun lex_run :: "lmode \<times> token list \<Rightarrow> utext \<Rightarrow> (lmode \<times> token list) option" where
  "lex_run st [] = Some st"
| "lex_run st (c # cs) = (case lex_step st c of None \<Rightarrow> None | Some st' \<Rightarrow> lex_run st' cs)"

definition lex :: "utext \<Rightarrow> token list option" where
  "lex s =
     (case lex_run (LDefault, []) s of
        Some (LDefault, toks) \<Rightarrow> Some (rev toks)
      | Some (LWord acc, toks) \<Rightarrow> map_option (\<lambda>t. rev (t # toks)) (word_token (rev acc))
      | _ \<Rightarrow> None)"

text \<open>The parser is a stack machine over the tokens. A frame is an open array with
  its elements so far, or an open object with its members so far and the key whose
  value is being read; both lists are kept in reverse.\<close>

datatype frame = FArr "json list" | FObj "(utext \<times> json) list" utext

datatype pstate =
    ExpectValue "frame list"
  | ArrFirst "frame list"
  | AfterArr "json list" "frame list"
  | ObjFirst "frame list"
  | ObjKey "(utext \<times> json) list" "frame list"
  | ObjColon "(utext \<times> json) list" utext "frame list"
  | AfterObj "(utext \<times> json) list" "frame list"
  | PDone json

fun push_value :: "json \<Rightarrow> frame list \<Rightarrow> pstate" where
  "push_value v [] = PDone v"
| "push_value v (FArr xs # stack) = AfterArr (v # xs) stack"
| "push_value v (FObj kvs k # stack) = AfterObj ((k, v) # kvs) stack"

fun value_start :: "token \<Rightarrow> frame list \<Rightarrow> pstate option" where
  "value_start (TStr s) stack = Some (push_value (JStr s) stack)"
| "value_start (TNum r) stack = Some (push_value (JNum r) stack)"
| "value_start TTrue stack = Some (push_value (JBool True) stack)"
| "value_start TFalse stack = Some (push_value (JBool False) stack)"
| "value_start TNull stack = Some (push_value JNull stack)"
| "value_start LBrack stack = Some (ArrFirst stack)"
| "value_start LBrace stack = Some (ObjFirst stack)"
| "value_start _ stack = None"

fun parse_step :: "pstate \<Rightarrow> token \<Rightarrow> pstate option" where
  "parse_step (ExpectValue stack) t = value_start t stack"
| "parse_step (ArrFirst stack) t =
     (if t = RBrack then Some (push_value (JArr []) stack)
      else value_start t (FArr [] # stack))"
| "parse_step (AfterArr xs stack) t =
     (if t = Comma then Some (ExpectValue (FArr xs # stack))
      else if t = RBrack then Some (push_value (JArr (rev xs)) stack)
      else None)"
| "parse_step (ObjFirst stack) t =
     (case t of
        RBrace \<Rightarrow> Some (push_value (JObj []) stack)
      | TStr k \<Rightarrow> Some (ObjColon [] k stack)
      | _ \<Rightarrow> None)"
| "parse_step (ObjKey kvs stack) t =
     (case t of TStr k \<Rightarrow> Some (ObjColon kvs k stack) | _ \<Rightarrow> None)"
| "parse_step (ObjColon kvs k stack) t =
     (if t = Colon then Some (ExpectValue (FObj kvs k # stack)) else None)"
| "parse_step (AfterObj kvs stack) t =
     (if t = Comma then Some (ObjKey kvs stack)
      else if t = RBrace then Some (push_value (JObj (rev kvs)) stack)
      else None)"
| "parse_step (PDone v) t = None"

fun parse_run :: "pstate \<Rightarrow> token list \<Rightarrow> pstate option" where
  "parse_run st [] = Some st"
| "parse_run st (t # ts) = (case parse_step st t of None \<Rightarrow> None | Some st' \<Rightarrow> parse_run st' ts)"

definition ref_json_parse :: "utext \<Rightarrow> json option" where
  "ref_json_parse s =
     (case lex s of
        None \<Rightarrow> None
      | Some toks \<Rightarrow>
          (case parse_run (ExpectValue []) toks of
             Some (PDone v) \<Rightarrow> Some v
           | _ \<Rightarrow> None))"

definition ref_platform :: platform where
  "ref_platform = \<lparr>json_parse = ref_json_parse, buffer_from = ref_buffer_from\<rparr>"

section \<open>Inputs used below\<close>



definition Hello :: bytes where
  "Hello = [72, 101, 108, 108, 111]"

definition audio_json :: "utext \<Rightarrow> json" where
  "audio_json s =
     JObj [(of_ascii ''candidates'', JArr [JObj [(of_ascii ''content'',
       JObj [(of_ascii ''parts'', JArr [JObj [(of_ascii ''inlineData'',
         JObj [(of_ascii ''data'', JStr s)])]])])]])]"

definition error_response :: "nat \<Rightarrow> response" where
  "error_response st = \<lparr>status = st, text_result = Inr (of_ascii ''failed''),
     json_result = Inl (Thrown ''SyntaxError''), body = None\<rparr>"

definition audio_response :: response where
  "audio_response = \<lparr>status = 200, text_result = Inr [],
     json_result = Inr (audio_json (of_ascii ''SGVsbG8='')), body = None\<rparr>"

definition empty_response :: response where
  "empty_response = \<lparr>status = 200, text_result = Inr [],
     json_result = Inr (JObj []), body = None\<rparr>"

text \<open>A caller that accepts every chunk and never aborts, in front of a transport
  that answers every request the same way.\<close>

definition always :: "fetch_result \<Rightarrow> env" where
  "always fr = \<lparr>fetch = (\<lambda>k. fr), onChunk = (\<lambda>n c. True),
     abort_in_attempt = (\<lambda>k. False), abort_in_sleep = (\<lambda>k. False),
     abort_in_sink = (\<lambda>n. False)\<rparr>"

text \<open>A transport whose first \<open>n\<close> answers are \<open>bad\<close> and whose later answers are
  \<open>good\<close>.\<close>

definition first_then :: "nat \<Rightarrow> fetch_result \<Rightarrow> fetch_result \<Rightarrow> env" where
  "first_then n bad good = (always good)\<lparr>fetch := (\<lambda>k. if k \<le> n then bad else good)\<rparr>"

definition some_key :: "utext option" where
  "some_key = Some (of_ascii ''key'')"

section \<open>Notions the statements use\<close>

text \<open>The effects of a trace other than the calls of \<^verbatim>\<open>reader.read()\<close>; how a body is
  cut into pushes shows in the reads only.\<close>

definition effects :: "event list \<Rightarrow> event list" where
  "effects evs = filter (\<lambda>x. x \<noteq> Read) evs"

text \<open>The fragments \<^verbatim>\<open>split('\n')\<close> gives for the text decoded from the bytes \<open>bs\<close>,
  after what \<^verbatim>\<open>buffer\<close> holds: all but the last are the complete lines.\<close>

definition body_text :: "utf8_decoder \<Rightarrow> utext \<Rightarrow> bytes \<Rightarrow> utext list" where
  "body_text d buffer bs = split_nl (buffer @ snd (utf8_decode d bs))"

text \<open>Example bodies. The frame of the specification's tests, carrying the base64 text
  \<^verbatim>\<open>SGVsbG8=\<close>; and a frame with a two-byte character, cut into four pushes: inside
  the prefix \<^verbatim>\<open>data: \<close>, inside the base64 text, and between the two bytes of the
  character.\<close>

definition ascii_bytes :: "string \<Rightarrow> bytes" where
  "ascii_bytes s = map of_char s"

definition hello_payload :: string where
  \<open>hello_payload = ''{"candidates":[{"content":{"parts":[{"inlineData":{"data":"SGVsbG8="}}]}}]}''\<close>

definition hello_frame :: string where
  "hello_frame = ''data: '' @ hello_payload"

definition world_frame :: string where
  \<open>world_frame = ''data: {"candidates":[{"content":{"parts":[{"inlineData":{"data":"V29ybGQ="}}]}}]}''\<close>

definition World :: bytes where
  "World = [87, 111, 114, 108, 100]"

text \<open>Two frames, each followed by an empty line, in one push.\<close>

definition two_frames :: bytes where
  "two_frames = ascii_bytes hello_frame @ [10, 10] @ ascii_bytes world_frame @ [10, 10]"

definition split_pushes :: "bytes list" where
  \<open>split_pushes =
     [ascii_bytes ''da'',
      ascii_bytes ''ta: {"candidates":[{"content":{"parts":[{"inlineData":{"data":"SGVs'',
      ascii_bytes ''bG8="}}]}}],"voice":"caf'' @ [0xC3],
      [0xA9] @ ascii_bytes ''"}'' @ [10]]\<close>

definition quiet :: env where
  "quiet = always (Rejected (Thrown ''TypeError''))"

text \<open>A caller whose \<^verbatim>\<open>onChunk\<close> rejects every chunk.\<close>

definition rejecting :: env where
  "rejecting = quiet\<lparr>onChunk := (\<lambda>n c. False)\<rparr>"

text \<open>The state in which the body phase starts, and, for the bytes \<open>bs\<close> of a whole
  body: its complete lines, and its final line, which is what follows the last newline
  together with the decoder's flush, trimmed.\<close>

definition start :: cstate where
  "start = \<lparr>totalBytes = 0, calls = 0, aborted = False\<rparr>"

definition complete_lines :: "bytes \<Rightarrow> utext list" where
  "complete_lines bs = butlast (body_text utf8_init [] bs)"

definition final_line :: "bytes \<Rightarrow> utext" where
  "final_line bs =
     trim (last (body_text utf8_init [] bs) @ utf8_flush (fst (utf8_decode utf8_init bs)))"

text \<open>The chunk a line stands for, if any: the decoded audio field of a \<^verbatim>\<open>data: \<close>
  line whose payload parses.\<close>

definition line_chunk :: "platform \<Rightarrow> utext \<Rightarrow> bytes list" where
  "line_chunk pf line =
     (if startsWith line (of_ascii ''data: '') \<and> trim (drop 6 line) \<noteq> of_ascii ''[DONE]'' then
        (case json_parse pf (trim (drop 6 line)) of
           None \<Rightarrow> []
         | Some data \<Rightarrow>
             (case audio_path data of
                None \<Rightarrow> []
              | Some audioData \<Rightarrow>
                  if \<not> truthy audioData then []
                  else (case buffer_from pf audioData of Inl e \<Rightarrow> [] | Inr pcmChunk \<Rightarrow> [pcmChunk])))
      else [])"

text \<open>A trace delivers one chunk at a time when every call of \<^verbatim>\<open>onChunk\<close> is followed
  by its settlement before anything else is done; only the caller's abort may fall in
  between. \<open>settles\<close> tells whether a trace begins with a settlement.\<close>

fun settles :: "event list \<Rightarrow> bool" where
  "settles (Settled b # evs) = True"
| "settles (Abort # Settled b # evs) = True"
| "settles evs = False"

fun one_at_a_time :: "event list \<Rightarrow> bool" where
  "one_at_a_time [] = True"
| "one_at_a_time (e # evs) = ((case e of Chunk c \<Rightarrow> settles evs | _ \<Rightarrow> True) \<and> one_at_a_time evs)"

text \<open>What follows the first occurrence of an event in a trace; the number of reads in
  a trace; and the events that stand for a request, a sleep or a use of the reader.\<close>

definition after :: "event \<Rightarrow> event list \<Rightarrow> event list" where
  "after x evs = drop 1 (dropWhile (\<lambda>e. e \<noteq> x) evs)"

definition reads :: "event list \<Rightarrow> nat" where
  "reads evs = count_list evs Read"





section \<open>The retry loop of generateSpeech\<close>


lemma fetches_append [simp]: "fetches (xs @ ys) = fetches xs @ fetches ys"
  by (simp add: fetches_def)
lemma sleeps_append [simp]: "sleeps (xs @ ys) = sleeps xs @ sleeps ys"
  by (simp add: sleeps_def)
lemma fetches_simps [simp]: "fetches [] = []" "fetches (Fetch k # evs) = k # fetches evs"
  "fetches (Log l m # evs) = fetches evs"  "fetches (Sleep n # evs) = fetches evs"
  by (simp_all add: fetches_def)
lemma sleeps_simps [simp]: "sleeps [] = []" "sleeps (Fetch k # evs) = sleeps evs"
  "sleeps (Log l m # evs) = sleeps evs"  "sleeps (Sleep n # evs) = n # sleeps evs"
  by (simp_all add: sleeps_def)





lemma ref_audio: "audio_path (audio_json s) = Some (JStr s)"
  by (simp add: audio_path_def audio_json_def of_ascii_def)

lemma ref_hello: "base64_decode (of_ascii ''SGVsbG8='') = Hello"
  by (simp add: base64_decode_def of_ascii_def sextet_def Hello_def)

text \<open>C9. With a missing credential (\<^verbatim>\<open>!apiKey\<close>), \<^verbatim>\<open>generateSpeech\<close> and
  \<^verbatim>\<open>generateSpeechStream\<close> throw the configuration error and have performed no effect
  at all: no request, no attempt, no sleep.\<close>

theorem C9_missing_credential:
  assumes "missing apiKey"
  shows "generateSpeech pf ev apiKey retries = ([], Inl ConfigurationError)
       \<and> generateSpeechStream pf ev apiKey retries = ([], Inl ConfigurationError)"
  using assms by (simp add: generateSpeech_def generateSpeechStream_def)

theorem C9_witness:
  "missing None \<and> missing (Some [])
   \<and> generateSpeech ref_platform (always (Responded audio_response)) None 3 = ([], Inl ConfigurationError)
   \<and> generateSpeechStream ref_platform (always (Responded audio_response)) (Some []) 3
       = ([], Inl ConfigurationError)"
  using C9_missing_credential[of None ref_platform "always (Responded audio_response)" 3]
    C9_missing_credential[of "Some []" ref_platform "always (Responded audio_response)" 3]
  by simp

lemma Suc_2_3: "Suc 2 = 3" "Suc 3 = 4"
  by simp_all

section \<open>What the catch clauses retry\<close>

text \<open>C1, at a failing input. The source comments the 4xx branch with
  \<^verbatim>\<open>For client errors (4xx), don't retry, just log and throw\<close>, but the \<^verbatim>\<open>throw\<close>
  stands inside the \<^verbatim>\<open>try\<close> whose \<^verbatim>\<open>catch\<close> sleeps and goes on to the next
  attempt. Against a transport that answers 404 to every request, with three attempts
  allowed, \<^verbatim>\<open>generateSpeech\<close> and \<^verbatim>\<open>generateSpeechStream\<close> both send three requests
  and sleep 1000 and 2000 milliseconds between them before they throw the 404 error.\<close>

theorem C1_client_error_is_retried:
  "fetches (fst (generateSpeech pf (always (Responded (error_response 404))) some_key 3)) = [1, 2, 3]
   \<and> sleeps (fst (generateSpeech pf (always (Responded (error_response 404))) some_key 3)) = [1000, 2000]
   \<and> snd (generateSpeech pf (always (Responded (error_response 404))) some_key 3)
        = Inl (ApiError 404 (of_ascii ''failed''))
   \<and> fetches (fst (generateSpeechStream pf (always (Responded (error_response 404))) some_key 3)) = [1, 2, 3]
   \<and> sleeps (fst (generateSpeechStream pf (always (Responded (error_response 404))) some_key 3)) = [1000, 2000]
   \<and> snd (generateSpeechStream pf (always (Responded (error_response 404))) some_key 3)
        = Inl (ApiError 404 (of_ascii ''failed''))"
  by (simp add: generateSpeech_def generateSpeechStream_def attempts.simps connect.simps
      attempt_body_def connect_body_def always_def error_response_def ok_def some_key_def
      of_ascii_def Suc_2_3)

lemma no_audio: "audio_path (JObj []) = None"
  by (simp add: audio_path_def)

text \<open>C4, at a failing input. The error for a response without audio is thrown inside
  the same \<^verbatim>\<open>try\<close>. When the first response (status 200) has no audio field and the
  second has one, \<^verbatim>\<open>generateSpeech\<close> sleeps 1000 milliseconds, sends a second request
  and returns its audio; when no response has the field, it sends all three requests
  before it throws the missing-audio error.\<close>

theorem C4_missing_audio_is_retried:
  "fetches (fst (generateSpeech ref_platform
      (first_then 1 (Responded empty_response) (Responded audio_response)) some_key 3)) = [1, 2]
   \<and> sleeps (fst (generateSpeech ref_platform
      (first_then 1 (Responded empty_response) (Responded audio_response)) some_key 3)) = [1000]
   \<and> snd (generateSpeech ref_platform
      (first_then 1 (Responded empty_response) (Responded audio_response)) some_key 3) = Inr Hello
   \<and> fetches (fst (generateSpeech pf (always (Responded empty_response)) some_key 3)) = [1, 2, 3]
   \<and> sleeps (fst (generateSpeech pf (always (Responded empty_response)) some_key 3)) = [1000, 2000]
   \<and> snd (generateSpeech pf (always (Responded empty_response)) some_key 3) = Inl NoAudioError"
  by (simp add: generateSpeech_def attempts.simps attempt_body_def always_def first_then_def
      empty_response_def audio_response_def ok_def some_key_def ref_audio ref_platform_def ref_hello
      no_audio Suc_2_3 Hello_def)
    (simp add: of_ascii_def)

section \<open>The stream decoder\<close>

lemma utf8_decode_append:
  "utf8_decode d (a @ b) =
     (fst (utf8_decode (fst (utf8_decode d a)) b),
      snd (utf8_decode d a) @ snd (utf8_decode (fst (utf8_decode d a)) b))"
  by (induction a arbitrary: d) (simp_all add: split_beta)

lemma split_nl_nonempty [simp]: "split_nl s \<noteq> []"
  by (cases s) (simp_all split: list.splits)

lemma split_nl_no_newline: "10 \<notin> set s \<Longrightarrow> split_nl s = [s]"
  by (induction s) simp_all

lemma last_split_nl_no_newline: "10 \<notin> set (last (split_nl s))"
proof (induction s)
  case Nil
  then show ?case by simp
next
  case (Cons c cs)
  obtain l ls where S: "split_nl cs = l # ls"
    by (cases "split_nl cs") simp_all
  show ?case using Cons.IH S by (cases ls) auto
qed

lemma split_nl_append:
  "split_nl (a @ b) = butlast (split_nl a) @ split_nl (last (split_nl a) @ b)"
proof (induction a)
  case Nil
  then show ?case by simp
next
  case (Cons c cs)
  obtain l ls where S: "split_nl cs = l # ls"
    by (cases "split_nl cs") simp_all
  obtain m ms where T: "split_nl (last (l # ls) @ b) = m # ms"
    by (cases "split_nl (last (l # ls) @ b)") simp_all
  show ?case
  proof (cases "c = 10")
    case True
    then show ?thesis using Cons.IH by simp
  next
    case False
    show ?thesis
    proof (cases ls)
      case Nil
      then show ?thesis using False S T Cons.IH by simp
    next
      case (Cons l' ls')
      then show ?thesis using False S T Cons.IH by simp
    qed
  qed
qed

lemma processLines_append:
  "processLines pf ev (xs @ ys) st =
     (fst (processLines pf ev xs st) @ fst (processLines pf ev ys (snd (processLines pf ev xs st))),
      snd (processLines pf ev ys (snd (processLines pf ev xs st))))"
  by (induction xs arbitrary: st) (simp_all add: split_beta)

lemma processLine_not_aborted:
  "\<not> aborted st \<Longrightarrow> \<forall>n. \<not> abort_in_sink ev n \<Longrightarrow> \<not> aborted (snd (processLine pf ev l st))"
  by (simp add: processLine_def Let_def split: option.splits sum.splits)

lemma processLines_not_aborted:
  "\<not> aborted st \<Longrightarrow> \<forall>n. \<not> abort_in_sink ev n \<Longrightarrow> \<not> aborted (snd (processLines pf ev ls st))"
  by (induction ls arbitrary: st) (simp_all add: split_beta processLine_not_aborted)

lemma processLine_no_read: "Read \<notin> set (fst (processLine pf ev l st))"
  by (simp add: processLine_def Let_def split: option.splits sum.splits)

lemma processLines_no_read: "Read \<notin> set (fst (processLines pf ev ls st))"
  by (induction ls arbitrary: st) (simp_all add: split_beta processLine_no_read)

lemma effects_append [simp]: "effects (xs @ ys) = effects xs @ effects ys"
  by (simp add: effects_def)

lemma effects_Read [simp]: "effects (Read # xs) = effects xs" "effects [] = []"
  by (simp_all add: effects_def)

lemma effects_processLines [simp]: "effects (fst (processLines pf ev ls st)) = fst (processLines pf ev ls st)"
  unfolding effects_def using processLines_no_read[of pf ev ls st] by (auto simp: filter_id_conv)

lemma read_loop_whole:
  assumes "\<not> aborted st" and "\<forall>n. \<not> abort_in_sink ev n" and "10 \<notin> set buffer"
  shows "effects (fst (read_loop pf ev ps e d buffer st))
           = fst (processLines pf ev (butlast (body_text d buffer (concat ps))) st)
       \<and> fst (snd (read_loop pf ev ps e d buffer st))
           = (case e of
                Some err \<Rightarrow> Inl err
              | None \<Rightarrow> Inr (last (body_text d buffer (concat ps))
                              @ utf8_flush (fst (utf8_decode d (concat ps)))))
       \<and> snd (snd (read_loop pf ev ps e d buffer st))
           = snd (processLines pf ev (butlast (body_text d buffer (concat ps))) st)"
  using assms
proof (induction ps arbitrary: d buffer st)
  case Nil
  then show ?case
    by (simp add: body_text_def split_nl_no_newline last_split_nl_no_newline split: option.splits)
next
  case (Cons v rest)
  define d1 where "d1 = fst (utf8_decode d v)"
  define t1 where "t1 = snd (utf8_decode d v)"
  define lines1 where "lines1 = split_nl (buffer @ t1)"
  define st1 where "st1 = snd (processLines pf ev (butlast lines1) st)"
  have na: "\<not> aborted st1"
    unfolding st1_def using Cons.prems(1,2) by (rule processLines_not_aborted)
  have nl: "10 \<notin> set (last lines1)"
    unfolding lines1_def by (rule last_split_nl_no_newline)
  note IH = Cons.IH[OF na Cons.prems(2) nl, of d1]
  have dec: "utf8_decode d ((v @ concat rest))
      = (fst (utf8_decode d1 (concat rest)), t1 @ snd (utf8_decode d1 (concat rest)))"
    by (simp add: utf8_decode_append d1_def t1_def)
  have bt: "body_text d buffer ((v @ concat rest))
      = butlast lines1 @ body_text d1 (last lines1) (concat rest)"
    unfolding body_text_def dec lines1_def
    using split_nl_append[of "buffer @ t1" "snd (utf8_decode d1 (concat rest))"] by simp
  have ne: "body_text d1 (last lines1) (concat rest) \<noteq> []"
    by (simp add: body_text_def)
  have bl: "butlast (body_text d buffer ((v @ concat rest)))
      = butlast lines1 @ butlast (body_text d1 (last lines1) (concat rest))"
    and la: "last (body_text d buffer ((v @ concat rest)))
      = last (body_text d1 (last lines1) (concat rest))"
    unfolding bt using ne by (simp_all add: butlast_append)
  have step: "read_loop pf ev (v # rest) e d buffer st
      = (Read # fst (processLines pf ev (butlast lines1) st)
           @ fst (read_loop pf ev rest e d1 (last lines1) st1),
         snd (read_loop pf ev rest e d1 (last lines1) st1))"
    using Cons.prems(1)
    by (simp add: split_beta Let_def d1_def t1_def lines1_def st1_def)
  have c: "concat (v # rest) = v @ concat rest"
    by simp
  show ?case
    unfolding c step bl la dec using IH
    by (simp add: processLines_append st1_def split: option.splits)
qed

lemma effects_simps [simp]:
  "effects (GetReader # xs) = GetReader # effects xs"
  "effects (ReleaseLock # xs) = ReleaseLock # effects xs"
  by (simp_all add: effects_def)

lemma effects_processLine [simp]: "effects (fst (processLine pf ev l st)) = fst (processLine pf ev l st)"
  unfolding effects_def using processLine_no_read[of pf ev l st] by (auto simp: filter_id_conv)

lemma chunks_effects [simp]: "chunks (effects evs) = chunks evs"
  by (induction evs) (auto simp: chunks_def effects_def)

lemma consume_unfold:
  "consume pf ev b ab =
     (let r = read_loop pf ev (pushes b) (ending b) utf8_init [] \<lparr>totalBytes = 0, calls = 0, aborted = ab\<rparr>
      in case fst (snd r) of
           Inl e \<Rightarrow> (GetReader # fst r @ [ReleaseLock], Inl e, snd (snd r))
         | Inr buffer \<Rightarrow>
             (GetReader # fst r
                @ (if trim buffer \<noteq> [] then fst (processLine pf ev (trim buffer) (snd (snd r))) else [])
                @ [ReleaseLock], Inr (),
              if trim buffer \<noteq> [] then snd (processLine pf ev (trim buffer) (snd (snd r))) else snd (snd r)))"
  by (simp add: consume_def split_beta Let_def split: sum.splits)

lemma consume_whole:
  assumes "\<forall>n. \<not> abort_in_sink ev n"
  shows "effects (fst (consume pf ev \<lparr>pushes = ps, ending = e\<rparr> False))
           = GetReader # fst (processLines pf ev (butlast (body_text utf8_init [] (concat ps)))
                               \<lparr>totalBytes = 0, calls = 0, aborted = False\<rparr>)
               @ (case e of
                    Some err \<Rightarrow> []
                  | None \<Rightarrow>
                      (let buffer = last (body_text utf8_init [] (concat ps))
                                      @ utf8_flush (fst (utf8_decode utf8_init (concat ps)))
                       in if trim buffer \<noteq> []
                          then fst (processLine pf ev (trim buffer)
                                 (snd (processLines pf ev (butlast (body_text utf8_init [] (concat ps)))
                                        \<lparr>totalBytes = 0, calls = 0, aborted = False\<rparr>)))
                          else []))
               @ [ReleaseLock]
       \<and> fst (snd (consume pf ev \<lparr>pushes = ps, ending = e\<rparr> False))
           = (case e of Some err \<Rightarrow> Inl err | None \<Rightarrow> Inr ())"
proof -
  have r: "\<not> aborted \<lparr>totalBytes = 0, calls = 0, aborted = False\<rparr>" "(10::nat) \<notin> set []"
    by simp_all
  note w = read_loop_whole[OF r(1) assms r(2), of pf ps e utf8_init]
  show ?thesis
    unfolding consume_unfold using w
    by (cases e) (simp_all add: Let_def)
qed

text \<open>C2. As long as the caller does not abort, the body phase delivers the same
  chunks in the same order, performs the same effects apart from the reads, and ends
  the same way, whether the bytes of the body arrive in the pushes \<open>ps\<close>, cut at any
  offsets, or in one push. The decoder keeps an incomplete character and an incomplete
  line for the next push, so a cut inside a multi-byte character, inside \<^verbatim>\<open>data: \<close> or
  inside the base64 text changes nothing.\<close>

theorem C2_chunking_invariance:
  assumes "\<forall>n. \<not> abort_in_sink ev n"
  shows "chunks (fst (consume pf ev \<lparr>pushes = ps, ending = e\<rparr> False))
           = chunks (fst (consume pf ev \<lparr>pushes = [concat ps], ending = e\<rparr> False))
       \<and> effects (fst (consume pf ev \<lparr>pushes = ps, ending = e\<rparr> False))
           = effects (fst (consume pf ev \<lparr>pushes = [concat ps], ending = e\<rparr> False))
       \<and> fst (snd (consume pf ev \<lparr>pushes = ps, ending = e\<rparr> False))
           = fst (snd (consume pf ev \<lparr>pushes = [concat ps], ending = e\<rparr> False))"
proof -
  have c: "concat [concat ps] = concat ps" by simp
  have e: "effects (fst (consume pf ev \<lparr>pushes = ps, ending = e\<rparr> False))
           = effects (fst (consume pf ev \<lparr>pushes = [concat ps], ending = e\<rparr> False))"
    using consume_whole[OF assms, of pf ps e] consume_whole[OF assms, of pf "[concat ps]" e]
    unfolding c by simp
  have r: "fst (snd (consume pf ev \<lparr>pushes = ps, ending = e\<rparr> False))
           = fst (snd (consume pf ev \<lparr>pushes = [concat ps], ending = e\<rparr> False))"
    using consume_whole[OF assms, of pf ps e] consume_whole[OF assms, of pf "[concat ps]" e]
    by simp
  have "chunks (fst (consume pf ev \<lparr>pushes = ps, ending = e\<rparr> False))
           = chunks (fst (consume pf ev \<lparr>pushes = [concat ps], ending = e\<rparr> False))"
    using arg_cong[OF e, of chunks] by (simp only: chunks_effects)
  then show ?thesis using e r by simp
qed


lemma consume_flush:
  assumes "\<forall>n. \<not> abort_in_sink ev n"
  shows "effects (fst (consume pf ev \<lparr>pushes = ps, ending = None\<rparr> False))
           = GetReader # fst (processLines pf ev (complete_lines (concat ps)) start)
               @ (if final_line (concat ps) \<noteq> []
                  then fst (processLine pf ev (final_line (concat ps))
                         (snd (processLines pf ev (complete_lines (concat ps)) start)))
                  else [])
               @ [ReleaseLock]"
  using consume_whole[OF assms, of pf ps None]
  by (simp add: complete_lines_def final_line_def start_def Let_def)

lemma processLine_chunks: "chunks (fst (processLine pf ev line st)) = line_chunk pf line"
  by (simp add: processLine_def line_chunk_def chunks_def Let_def split: option.splits sum.splits)

lemma chunks_append [simp]: "chunks (xs @ ys) = chunks xs @ chunks ys"
  by (simp add: chunks_def)

lemma chunks_simps [simp]: "chunks [] = []" "chunks (GetReader # xs) = chunks xs"
  "chunks (ReleaseLock # xs) = chunks xs" "chunks (Read # xs) = chunks xs"
  by (simp_all add: chunks_def)

lemma processLines_chunks:
  "chunks (fst (processLines pf ev ls st)) = concat (map (line_chunk pf) ls)"
  by (induction ls arbitrary: st) (simp_all add: split_beta processLine_chunks)

text \<open>C5. When the stream ends (and the caller has not aborted), the body phase has
  processed the complete lines of the body, and then, if the text after the last
  newline with the decoder's flush appended is not empty once trimmed, it processes
  that trimmed text as one more line before it releases the reader. Hence, when that
  final text is a \<^verbatim>\<open>data: \<close> line whose payload parses and carries audio, as a body
  ending in a frame without a trailing newline is, the decoded audio is delivered as
  the last chunk.\<close>

theorem C5_end_of_stream_flush:
  assumes "\<forall>n. \<not> abort_in_sink ev n"
  shows "effects (fst (consume pf ev \<lparr>pushes = ps, ending = None\<rparr> False))
           = GetReader # fst (processLines pf ev (complete_lines (concat ps)) start)
               @ (if final_line (concat ps) \<noteq> []
                  then fst (processLine pf ev (final_line (concat ps))
                         (snd (processLines pf ev (complete_lines (concat ps)) start)))
                  else [])
               @ [ReleaseLock]
       \<and> (final_line (concat ps) = of_ascii ''data: '' @ payload
            \<and> trim payload \<noteq> of_ascii ''[DONE]''
            \<and> json_parse pf (trim payload) = Some data \<and> audio_path data = Some a
            \<and> truthy a \<and> buffer_from pf a = Inr c
          \<longrightarrow> chunks (fst (consume pf ev \<lparr>pushes = ps, ending = None\<rparr> False))
                = concat (map (line_chunk pf) (complete_lines (concat ps))) @ [c])"
proof (intro conjI impI)
  show "effects (fst (consume pf ev \<lparr>pushes = ps, ending = None\<rparr> False))
           = GetReader # fst (processLines pf ev (complete_lines (concat ps)) start)
               @ (if final_line (concat ps) \<noteq> []
                  then fst (processLine pf ev (final_line (concat ps))
                         (snd (processLines pf ev (complete_lines (concat ps)) start)))
                  else [])
               @ [ReleaseLock]"
    by (rule consume_flush[OF assms])
next
  assume h: "final_line (concat ps) = of_ascii ''data: '' @ payload
            \<and> trim payload \<noteq> of_ascii ''[DONE]''
            \<and> json_parse pf (trim payload) = Some data \<and> audio_path data = Some a
            \<and> truthy a \<and> buffer_from pf a = Inr c"
  then have ne: "final_line (concat ps) \<noteq> []"
    by (simp add: of_ascii_def)
  have lc: "line_chunk pf (final_line (concat ps)) = [c]"
    using h by (simp add: line_chunk_def startsWith_def of_ascii_def)
  have "chunks (effects (fst (consume pf ev \<lparr>pushes = ps, ending = None\<rparr> False)))
          = concat (map (line_chunk pf) (complete_lines (concat ps))) @ [c]"
    unfolding consume_flush[OF assms]
    using ne lc by (simp add: processLines_chunks processLine_chunks)
  then show "chunks (fst (consume pf ev \<lparr>pushes = ps, ending = None\<rparr> False))
                = concat (map (line_chunk pf) (complete_lines (concat ps))) @ [c]"
    by (simp only: chunks_effects)
qed

text \<open>C6. \<^verbatim>\<open>processLine\<close> returns effects and a state, never an error. An empty
  line and a line that does not begin with \<^verbatim>\<open>data: \<close> give no effect and leave the
  state as it is; so does a line whose trimmed payload is \<^verbatim>\<open>[DONE]\<close>. A payload that
  \<^verbatim>\<open>JSON.parse\<close> rejects gives one debug log entry and nothing else, and the lines
  after it are processed as if it had not been there. A payload that parses but has
  no audio field, or a falsy one, gives no effect.\<close>

theorem C6_line_handling:
  "processLine pf ev [] st = ([], st)
   \<and> (\<not> startsWith line (of_ascii ''data: '') \<longrightarrow> processLine pf ev line st = ([], st))
   \<and> (startsWith line (of_ascii ''data: '') \<and> trim (drop 6 line) = of_ascii ''[DONE]''
        \<longrightarrow> processLine pf ev line st = ([], st))
   \<and> (startsWith line (of_ascii ''data: '') \<and> trim (drop 6 line) \<noteq> of_ascii ''[DONE]''
        \<and> json_parse pf (trim (drop 6 line)) = None
        \<longrightarrow> processLine pf ev line st = ([Log Debug FailedToParse], st)
          \<and> processLines pf ev (line # rest) st
              = (Log Debug FailedToParse # fst (processLines pf ev rest st),
                 snd (processLines pf ev rest st)))
   \<and> (startsWith line (of_ascii ''data: '') \<and> trim (drop 6 line) \<noteq> of_ascii ''[DONE]''
        \<and> json_parse pf (trim (drop 6 line)) = Some data
        \<and> (case audio_path data of None \<Rightarrow> True | Some a \<Rightarrow> \<not> truthy a)
        \<longrightarrow> processLine pf ev line st = ([], st))"
  by (auto simp: processLine_def startsWith_def of_ascii_def Let_def split_beta split: option.splits)

lemma processLine_totalBytes:
  "totalBytes (snd (processLine pf ev line st))
     = totalBytes st + sum_list (map length (chunks (fst (processLine pf ev line st))))"
  by (simp add: processLine_def chunks_def Let_def split: option.splits sum.splits)

lemma processLines_totalBytes:
  "totalBytes (snd (processLines pf ev ls st))
     = totalBytes st + sum_list (map length (chunks (fst (processLines pf ev ls st))))"
  by (induction ls arbitrary: st) (simp_all add: split_beta processLine_totalBytes)

lemma read_loop_totalBytes:
  "totalBytes (snd (snd (read_loop pf ev ps e d buffer st)))
     = totalBytes st + sum_list (map length (chunks (fst (read_loop pf ev ps e d buffer st))))"
  by (induction ps arbitrary: d buffer st)
     (simp_all add: split_beta Let_def processLines_totalBytes split: option.splits)

lemma consume_totalBytes:
  "totalBytes (snd (snd (consume pf ev b ab)))
     = sum_list (map length (chunks (fst (consume pf ev b ab))))"
  unfolding consume_unfold
  using read_loop_totalBytes[of pf ev "pushes b" "ending b" utf8_init "[]" "\<lparr>totalBytes = 0, calls = 0, aborted = ab\<rparr>"]
  by (simp add: Let_def processLine_totalBytes split: sum.splits)

text \<open>C10. When \<^verbatim>\<open>onChunk\<close> throws or rejects for the chunk of a line, the line's
  effects are the call, its failed settlement and one debug log entry (the one of a
  parse failure); \<^verbatim>\<open>totalBytes\<close> has grown by the length of that chunk; the lines
  after it are processed. Whatever \<^verbatim>\<open>onChunk\<close> does, a body that ends normally, read
  without an abort, makes the body phase finish without an error; and \<^verbatim>\<open>totalBytes\<close>
  at the end is the total length of all chunks handed to \<^verbatim>\<open>onChunk\<close>, delivered or
  not.\<close>

theorem C10_sink_failure_is_swallowed:
  "(startsWith line (of_ascii ''data: '') \<and> trim (drop 6 line) \<noteq> of_ascii ''[DONE]''
      \<and> json_parse pf (trim (drop 6 line)) = Some data \<and> audio_path data = Some a
      \<and> truthy a \<and> buffer_from pf a = Inr c \<and> \<not> onChunk ev (calls st) c
    \<longrightarrow> effects (filter (\<lambda>x. x \<noteq> Abort) (fst (processLine pf ev line st)))
          = [Chunk c, Settled False, Log Debug FailedToParse]
      \<and> totalBytes (snd (processLine pf ev line st)) = totalBytes st + length c
      \<and> processLines pf ev (line # rest) st
          = (fst (processLine pf ev line st)
               @ fst (processLines pf ev rest (snd (processLine pf ev line st))),
             snd (processLines pf ev rest (snd (processLine pf ev line st)))))
   \<and> ((\<forall>n. \<not> abort_in_sink ev n)
      \<longrightarrow> fst (snd (consume pf ev \<lparr>pushes = ps, ending = None\<rparr> False)) = Inr ())
   \<and> totalBytes (snd (snd (consume pf ev b ab)))
        = sum_list (map length (chunks (fst (consume pf ev b ab))))"
proof (intro conjI impI)
  assume h: "startsWith line (of_ascii ''data: '') \<and> trim (drop 6 line) \<noteq> of_ascii ''[DONE]''
      \<and> json_parse pf (trim (drop 6 line)) = Some data \<and> audio_path data = Some a
      \<and> truthy a \<and> buffer_from pf a = Inr c \<and> \<not> onChunk ev (calls st) c"
  then show "effects (filter (\<lambda>x. x \<noteq> Abort) (fst (processLine pf ev line st)))
          = [Chunk c, Settled False, Log Debug FailedToParse]"
    by (simp add: processLine_def effects_def)
  from h show "totalBytes (snd (processLine pf ev line st)) = totalBytes st + length c"
    by (simp add: processLine_def)
  show "processLines pf ev (line # rest) st
          = (fst (processLine pf ev line st)
               @ fst (processLines pf ev rest (snd (processLine pf ev line st))),
             snd (processLines pf ev rest (snd (processLine pf ev line st))))"
    by (simp add: split_beta)
next
  assume "\<forall>n. \<not> abort_in_sink ev n"
  then show "fst (snd (consume pf ev \<lparr>pushes = ps, ending = None\<rparr> False)) = Inr ()"
    using consume_whole[of ev pf ps None] by simp
next
  show "totalBytes (snd (snd (consume pf ev b ab)))
        = sum_list (map length (chunks (fst (consume pf ev b ab))))"
    by (rule consume_totalBytes)
qed

lemma line_chunk_at_most_one: "length (line_chunk pf line) \<le> 1"
  by (simp add: line_chunk_def split: option.splits sum.splits)

lemma line_chunk_empty [simp]: "line_chunk pf [] = []"
  by (simp add: line_chunk_def startsWith_def of_ascii_def)

text \<open>The loop in general: when it ends with \<^verbatim>\<open>done\<close>, every complete line has been
  processed; when it ends with an error, the lines processed are the first of them.\<close>

lemma read_loop_general:
  assumes "10 \<notin> set buffer"
  shows "(case fst (snd (read_loop pf ev ps e d buffer st)) of
            Inr buf \<Rightarrow>
              chunks (fst (read_loop pf ev ps e d buffer st))
                = concat (map (line_chunk pf) (butlast (body_text d buffer (concat ps))))
              \<and> buf = last (body_text d buffer (concat ps)) @ utf8_flush (fst (utf8_decode d (concat ps)))
          | Inl err \<Rightarrow>
              prefix (chunks (fst (read_loop pf ev ps e d buffer st)))
                (concat (map (line_chunk pf) (butlast (body_text d buffer (concat ps))))))"
  using assms
proof (induction ps arbitrary: d buffer st)
  case Nil
  then show ?case
    by (simp add: body_text_def split_nl_no_newline split: option.splits)
next
  case (Cons v rest)
  define d1 where "d1 = fst (utf8_decode d v)"
  define t1 where "t1 = snd (utf8_decode d v)"
  define lines1 where "lines1 = split_nl (buffer @ t1)"
  define st1 where "st1 = snd (processLines pf ev (butlast lines1) st)"
  have nl: "10 \<notin> set (last lines1)"
    unfolding lines1_def by (rule last_split_nl_no_newline)
  note IH = Cons.IH[OF nl, of d1 st1]
  have dec: "utf8_decode d (v @ concat rest)
      = (fst (utf8_decode d1 (concat rest)), t1 @ snd (utf8_decode d1 (concat rest)))"
    by (simp add: utf8_decode_append d1_def t1_def)
  have bt: "body_text d buffer (v @ concat rest)
      = butlast lines1 @ body_text d1 (last lines1) (concat rest)"
    unfolding body_text_def dec lines1_def
    using split_nl_append[of "buffer @ t1" "snd (utf8_decode d1 (concat rest))"] by simp
  have ne: "body_text d1 (last lines1) (concat rest) \<noteq> []"
    by (simp add: body_text_def)
  have bl: "butlast (body_text d buffer (v @ concat rest))
      = butlast lines1 @ butlast (body_text d1 (last lines1) (concat rest))"
    and la: "last (body_text d buffer (v @ concat rest))
      = last (body_text d1 (last lines1) (concat rest))"
    unfolding bt using ne by (simp_all add: butlast_append)
  have c: "concat (v # rest) = v @ concat rest"
    by simp
  show ?case
  proof (cases "aborted st")
    case True
    then show ?thesis by simp
  next
    case False
    have step: "read_loop pf ev (v # rest) e d buffer st
      = (Read # fst (processLines pf ev (butlast lines1) st)
           @ fst (read_loop pf ev rest e d1 (last lines1) st1),
         snd (read_loop pf ev rest e d1 (last lines1) st1))"
      using False
      by (simp add: split_beta Let_def d1_def t1_def lines1_def st1_def)
    show ?thesis
      unfolding c step bl la dec using IH
      by (simp add: processLines_chunks split: sum.splits)
  qed
qed

lemma consume_prefix:
  "prefix (chunks (fst (consume pf ev \<lparr>pushes = ps, ending = e\<rparr> ab)))
     (concat (map (line_chunk pf) (complete_lines (concat ps))) @ line_chunk pf (final_line (concat ps)))"
proof -
  have n: "(10::nat) \<notin> set []" by simp
  note g = read_loop_general[OF n, of pf ev ps e utf8_init "\<lparr>totalBytes = 0, calls = 0, aborted = ab\<rparr>"]
  show ?thesis
    unfolding consume_unfold using g
    by (auto simp: Let_def complete_lines_def final_line_def processLine_chunks
        split: sum.splits intro: prefix_order.trans)
qed

lemma settles_append: "settles xs \<Longrightarrow> settles (xs @ ys)"
  by (induction xs rule: settles.induct) simp_all

lemma one_at_a_time_append:
  "one_at_a_time xs \<Longrightarrow> one_at_a_time ys \<Longrightarrow> one_at_a_time (xs @ ys)"
  by (induction xs) (auto simp: settles_append split: event.splits)

lemma one_at_a_time_processLine: "one_at_a_time (fst (processLine pf ev line st))"
  by (simp add: processLine_def Let_def split: option.splits sum.splits)

lemma one_at_a_time_processLines: "one_at_a_time (fst (processLines pf ev ls st))"
  by (induction ls arbitrary: st)
     (simp_all add: split_beta one_at_a_time_append one_at_a_time_processLine)

lemma one_at_a_time_read_loop: "one_at_a_time (fst (read_loop pf ev ps e d buffer st))"
  by (induction ps arbitrary: d buffer st)
     (simp_all add: split_beta Let_def one_at_a_time_append one_at_a_time_processLines
        split: option.splits)

lemma one_at_a_time_consume: "one_at_a_time (fst (consume pf ev b ab))"
  unfolding consume_unfold
  by (simp add: Let_def one_at_a_time_append one_at_a_time_read_loop one_at_a_time_processLine
      split: sum.splits)

text \<open>C8. A line gives at most one chunk, and which chunk depends on the line alone.
  The chunks the body phase hands to \<^verbatim>\<open>onChunk\<close> are, in this order, the chunks of
  the complete lines of the body in the order of the lines, followed by the chunk of
  the final line: all of them when the stream ends normally and the caller does not
  abort, and the first of them on every other path. Every call of \<^verbatim>\<open>onChunk\<close> is
  followed by its settlement before the next effect: no read and no other delivery
  falls in between.\<close>

theorem C8_in_order_one_at_a_time:
  "chunks (fst (processLine pf ev line st)) = line_chunk pf line
   \<and> length (line_chunk pf line) \<le> 1
   \<and> prefix (chunks (fst (consume pf ev \<lparr>pushes = ps, ending = e\<rparr> ab)))
       (concat (map (line_chunk pf) (complete_lines (concat ps)))
          @ line_chunk pf (final_line (concat ps)))
   \<and> ((\<forall>n. \<not> abort_in_sink ev n)
      \<longrightarrow> chunks (fst (consume pf ev \<lparr>pushes = ps, ending = None\<rparr> False))
            = concat (map (line_chunk pf) (complete_lines (concat ps)))
                @ line_chunk pf (final_line (concat ps)))
   \<and> one_at_a_time (fst (consume pf ev \<lparr>pushes = ps, ending = e\<rparr> ab))"
proof (intro conjI impI)
  show "chunks (fst (processLine pf ev line st)) = line_chunk pf line"
    by (rule processLine_chunks)
  show "length (line_chunk pf line) \<le> 1"
    by (rule line_chunk_at_most_one)
  show "prefix (chunks (fst (consume pf ev \<lparr>pushes = ps, ending = e\<rparr> ab)))
       (concat (map (line_chunk pf) (complete_lines (concat ps)))
          @ line_chunk pf (final_line (concat ps)))"
    by (rule consume_prefix)
  show "one_at_a_time (fst (consume pf ev \<lparr>pushes = ps, ending = e\<rparr> ab))"
    by (rule one_at_a_time_consume)
next
  assume a: "\<forall>n. \<not> abort_in_sink ev n"
  have "chunks (effects (fst (consume pf ev \<lparr>pushes = ps, ending = None\<rparr> False)))
          = concat (map (line_chunk pf) (complete_lines (concat ps)))
              @ line_chunk pf (final_line (concat ps))"
    unfolding consume_flush[OF a]
    by (simp add: processLines_chunks processLine_chunks)
  then show "chunks (fst (consume pf ev \<lparr>pushes = ps, ending = None\<rparr> False))
            = concat (map (line_chunk pf) (complete_lines (concat ps)))
                @ line_chunk pf (final_line (concat ps))"
    by (simp only: chunks_effects)
qed

section \<open>Cancellation\<close>


lemma after_Nil [simp]: "after x [] = []"
  by (simp add: after_def)



lemma reads_append [simp]: "reads (xs @ ys) = reads xs + reads ys"
  by (simp add: reads_def)

lemma reads_simps [simp]: "reads [] = 0" "reads (Read # evs) = Suc (reads evs)"
  "e \<noteq> Read \<Longrightarrow> reads (e # evs) = reads evs"
  by (simp_all add: reads_def)















lemma fetches_more [simp]:
  "fetches (GetReader # evs) = fetches evs" "fetches (ReleaseLock # evs) = fetches evs"
  "fetches (Read # evs) = fetches evs" "fetches (Abort # evs) = fetches evs"
  "fetches (Chunk c # evs) = fetches evs" "fetches (Settled b # evs) = fetches evs"
  by (simp_all add: fetches_def)

lemma sleeps_more [simp]:
  "sleeps (GetReader # evs) = sleeps evs" "sleeps (ReleaseLock # evs) = sleeps evs"
  "sleeps (Read # evs) = sleeps evs" "sleeps (Abort # evs) = sleeps evs"
  "sleeps (Chunk c # evs) = sleeps evs" "sleeps (Settled b # evs) = sleeps evs"
  by (simp_all add: sleeps_def)









lemma chunks_more [simp]:
  "chunks (Log l m # evs) = chunks evs" "chunks (Fetch k # evs) = chunks evs"
  "chunks (Sleep ms # evs) = chunks evs" "chunks (Abort # evs) = chunks evs"
  "chunks (Settled b # evs) = chunks evs" "chunks (Chunk c # evs) = c # chunks evs"
  by (simp_all add: chunks_def)















section \<open>The retry loop of generateSpeechStream\<close>








section \<open>Instances\<close>

theorem C2_witness:
  "(\<forall>n. \<not> abort_in_sink quiet n)
   \<and> chunks (fst (consume ref_platform quiet \<lparr>pushes = split_pushes, ending = None\<rparr> False)) = [Hello]
   \<and> chunks (fst (consume ref_platform quiet \<lparr>pushes = [concat split_pushes], ending = None\<rparr> False))
        = [Hello]"
proof -
  have a: "\<forall>n. \<not> abort_in_sink quiet n"
    by (simp add: quiet_def always_def)
  have b: "chunks (fst (consume ref_platform quiet \<lparr>pushes = split_pushes, ending = None\<rparr> False)) = [Hello]"
    by code_simp
  show ?thesis
    using C2_chunking_invariance[OF a, of ref_platform split_pushes None] a b by simp
qed

theorem C5_witness:
  "(\<forall>n. \<not> abort_in_sink quiet n)
   \<and> final_line (concat [ascii_bytes hello_frame]) = of_ascii hello_frame
   \<and> chunks (fst (consume ref_platform quiet \<lparr>pushes = [ascii_bytes hello_frame], ending = None\<rparr> False))
        = [Hello]"
proof -
  have a: "\<forall>n. \<not> abort_in_sink quiet n"
    by (simp add: quiet_def always_def)
  have f: "final_line (concat [ascii_bytes hello_frame]) = of_ascii hello_frame"
    by code_simp
  have h: "final_line (concat [ascii_bytes hello_frame]) = of_ascii ''data: '' @ of_ascii hello_payload
      \<and> trim (of_ascii hello_payload) \<noteq> of_ascii ''[DONE]''
      \<and> json_parse ref_platform (trim (of_ascii hello_payload)) = Some (audio_json (of_ascii ''SGVsbG8=''))
      \<and> audio_path (audio_json (of_ascii ''SGVsbG8='')) = Some (JStr (of_ascii ''SGVsbG8=''))
      \<and> truthy (JStr (of_ascii ''SGVsbG8=''))
      \<and> buffer_from ref_platform (JStr (of_ascii ''SGVsbG8='')) = Inr Hello"
    by code_simp
  have c: "concat (map (line_chunk ref_platform) (complete_lines (concat [ascii_bytes hello_frame]))) = []"
    by code_simp
  show ?thesis
    using C5_end_of_stream_flush[OF a, of ref_platform "[ascii_bytes hello_frame]"
        "of_ascii hello_payload" "audio_json (of_ascii ''SGVsbG8='')" "JStr (of_ascii ''SGVsbG8='')" Hello]
      a f h c
    by simp
qed

theorem C6_witness:
  "processLine ref_platform quiet [] start = ([], start)
   \<and> processLine ref_platform quiet (of_ascii '': ping'') start = ([], start)
   \<and> processLine ref_platform quiet (of_ascii ''data: [DONE]'') start = ([], start)
   \<and> processLines ref_platform quiet [of_ascii ''data: {not json'', of_ascii hello_frame] start
        = ([Log Debug FailedToParse, Chunk Hello, Settled True],
           \<lparr>totalBytes = 5, calls = 1, aborted = False\<rparr>)
   \<and> processLine ref_platform quiet (of_ascii ''data: {}'') start = ([], start)"
proof -
  have h1: "\<not> startsWith (of_ascii '': ping'') (of_ascii ''data: '')"
    by code_simp
  have h2: "startsWith (of_ascii ''data: [DONE]'') (of_ascii ''data: '')
      \<and> trim (drop 6 (of_ascii ''data: [DONE]'')) = of_ascii ''[DONE]''"
    by code_simp
  have h3: "startsWith (of_ascii ''data: {not json'') (of_ascii ''data: '')
      \<and> trim (drop 6 (of_ascii ''data: {not json'')) \<noteq> of_ascii ''[DONE]''
      \<and> json_parse ref_platform (trim (drop 6 (of_ascii ''data: {not json''))) = None"
    by code_simp
  have r3: "processLines ref_platform quiet [of_ascii hello_frame] start
      = ([Chunk Hello, Settled True], \<lparr>totalBytes = 5, calls = 1, aborted = False\<rparr>)"
    by code_simp
  have h4: "startsWith (of_ascii ''data: {}'') (of_ascii ''data: '')
      \<and> trim (drop 6 (of_ascii ''data: {}'')) \<noteq> of_ascii ''[DONE]''
      \<and> json_parse ref_platform (trim (drop 6 (of_ascii ''data: {}''))) = Some (JObj [])
      \<and> (case audio_path (JObj []) of None \<Rightarrow> True | Some a \<Rightarrow> \<not> truthy a)"
    by code_simp
  show ?thesis
    using C6_line_handling[of ref_platform quiet start "of_ascii '': ping''"]
      C6_line_handling[of ref_platform quiet start "of_ascii ''data: [DONE]''"]
      C6_line_handling[of ref_platform quiet start "of_ascii ''data: {not json''" "[of_ascii hello_frame]"]
      C6_line_handling[of ref_platform quiet start "of_ascii ''data: {}''" "[]" "JObj []"]
      h1 h2 h3 r3 h4
    by simp
qed

theorem C8_witness:
  "(\<forall>n. \<not> abort_in_sink quiet n)
   \<and> chunks (fst (consume ref_platform quiet \<lparr>pushes = [two_frames], ending = None\<rparr> False))
        = [Hello, World]
   \<and> one_at_a_time (fst (consume ref_platform quiet \<lparr>pushes = [two_frames], ending = None\<rparr> False))"
proof -
  have a: "\<forall>n. \<not> abort_in_sink quiet n"
    by (simp add: quiet_def always_def)
  have c: "concat (map (line_chunk ref_platform) (complete_lines (concat [two_frames])))
             @ line_chunk ref_platform (final_line (concat [two_frames])) = [Hello, World]"
    by code_simp
  show ?thesis
    using C8_in_order_one_at_a_time[of ref_platform quiet _ _ "[two_frames]" None False] a c
    by simp
qed

theorem C10_witness:
  "effects (filter (\<lambda>x. x \<noteq> Abort) (fst (processLine ref_platform rejecting (of_ascii hello_frame) start)))
     = [Chunk Hello, Settled False, Log Debug FailedToParse]
   \<and> totalBytes (snd (processLine ref_platform rejecting (of_ascii hello_frame) start)) = 5
   \<and> fst (snd (consume ref_platform rejecting \<lparr>pushes = [two_frames], ending = None\<rparr> False)) = Inr ()
   \<and> totalBytes (snd (snd (consume ref_platform rejecting \<lparr>pushes = [two_frames], ending = None\<rparr> False)))
        = 10"
proof -
  have a: "\<forall>n. \<not> abort_in_sink rejecting n"
    by (simp add: rejecting_def quiet_def always_def)
  have h: "startsWith (of_ascii hello_frame) (of_ascii ''data: '')
      \<and> trim (drop 6 (of_ascii hello_frame)) \<noteq> of_ascii ''[DONE]''
      \<and> json_parse ref_platform (trim (drop 6 (of_ascii hello_frame))) = Some (audio_json (of_ascii ''SGVsbG8=''))
      \<and> audio_path (audio_json (of_ascii ''SGVsbG8='')) = Some (JStr (of_ascii ''SGVsbG8=''))
      \<and> truthy (JStr (of_ascii ''SGVsbG8=''))
      \<and> buffer_from ref_platform (JStr (of_ascii ''SGVsbG8='')) = Inr Hello
      \<and> \<not> onChunk rejecting (calls start) Hello"
    by code_simp
  have c: "sum_list (map length (chunks (fst (consume ref_platform rejecting
             \<lparr>pushes = [two_frames], ending = None\<rparr> False)))) = 10"
    by code_simp
  have t: "totalBytes start + length Hello = 5"
    by code_simp
  show ?thesis
    using C10_sink_failure_is_swallowed[of "of_ascii hello_frame" ref_platform
        "audio_json (of_ascii ''SGVsbG8='')" "JStr (of_ascii ''SGVsbG8='')" Hello rejecting start "[]"
        "[two_frames]" "\<lparr>pushes = [two_frames], ending = None\<rparr>" False]
      a h c t
    by simp
qed






end
